theory Spec2Isabelle
  imports Main "HOL-Library.Multiset"
begin

section \<open>Data model\<close>

text \<open>
  The query layer of the review catalogue (\<^verbatim>\<open>models/reviews-models.js\<close>) talks to a
  relational store through \<^verbatim>\<open>db.query\<close>. The tables are lists of rows in storage
  order; a timestamp is a point on an integer time line.
\<close>

type_synonym timestamp = int

record review =
  review_id :: int
  title :: string
  category :: string
  designer :: string
  owner :: string
  review_body :: string
  review_img_url :: string
  created_at :: timestamp
  votes :: int

text \<open>
  A comment row. The columns \<^verbatim>\<open>review_id\<close>, \<^verbatim>\<open>votes\<close> and \<^verbatim>\<open>created_at\<close> of the
  comments table carry the prefix \<open>c_\<close>, since the reviews table has columns of the
  same names.
\<close>

record comment =
  comment_id :: int
  author :: string
  c_review_id :: int
  body :: string
  c_votes :: int
  c_created_at :: timestamp

record user =
  username :: string
  name :: string
  avatar_url :: string

record category_row =
  slug :: string
  description :: string

record database =
  reviews :: "review list"
  comments :: "comment list"
  users :: "user list"
  categories :: "category_row list"

text \<open>
  A JavaScript value as far as the rows of \<^verbatim>\<open>selectReviews\<close> need it: the driver
  hands the aggregate \<^verbatim>\<open>COUNT\<close> (a bigint) over as a string, and \<^verbatim>\<open>parseInt\<close>
  yields a number, which may be \<^verbatim>\<open>NaN\<close>. Numbers are unbounded integers here: the
  loss of precision of a double beyond \<open>2^53\<close> is not modelled.
\<close>

datatype jsvalue = Str string | Num int | NaN

text \<open>A row of the aggregate query: every column of the review, and \<^verbatim>\<open>comment_count\<close>.\<close>

record review_row = review +
  comment_count :: jsvalue

text \<open>
  What a rejected promise carries: the object \<^verbatim>\<open>{status, msg}\<close> that the query layer
  builds itself, or the error of the storage layer, which passes through the
  \<^verbatim>\<open>.then\<close> chain untouched.
\<close>

datatype rejection = Rejected (status: nat) (msg: string) | Storage_error

text \<open>
  The table declarations are not part of the modelled sources, so what the storage
  layer does with an integer column is a parameter of every operation:
  \<open>integer_in\<close> converts the text of a bound parameter to an integer (\<open>None\<close>: the
  statement is refused with an error), and \<open>integer_fits\<close> tells whether a computed
  value can be stored in the column (the statement is refused when it cannot).
\<close>

record storage =
  integer_in :: "string \<Rightarrow> int option"
  integer_fits :: "int \<Rightarrow> bool"

text \<open>
  The statements of the query layer, with the parameter array of each as it is sent.
  The connection pool is the store together with the statements issued so far.
\<close>

datatype stmt =
    Select_reviews_counted
  | Select_review string
  | Select_comments string
  | Update_votes string string
  | Insert_comment string string string
  | Select_categories
  | Select_users

record conn =
  store :: database
  issued :: "stmt list"

type_synonym 'a promise = "(rejection + 'a) \<times> conn"

section \<open>Decimal text and \<^verbatim>\<open>parseInt\<close>\<close>

text \<open>Digits by their character codes: \<^verbatim>\<open>0\<close> is 48, \<^verbatim>\<open>A\<close> is 65 and \<^verbatim>\<open>a\<close> is 97.\<close>

definition digit_char :: "nat \<Rightarrow> char" where
  "digit_char d = char_of (48 + d)"

text \<open>The decimal rendering of a count, as the driver delivers a bigint.\<close>

fun show_nat :: "nat \<Rightarrow> string" where
  "show_nat n = (if n < 10 then [digit_char n] else show_nat (n div 10) @ [digit_char (n mod 10)])"

declare show_nat.simps [simp del]

definition show_int :: "int \<Rightarrow> string" where
  "show_int i = (if i < 0 then CHR ''-'' # show_nat (nat (- i)) else show_nat (nat i))"

text \<open>The value of a digit in radix 16 or below; \<open>None\<close> for any other character.\<close>

definition digit_of :: "char \<Rightarrow> nat option" where
  "digit_of c =
     (let code = (of_char c :: nat)
      in if 48 \<le> code \<and> code \<le> 57 then Some (code - 48)
         else if 97 \<le> code \<and> code \<le> 102 then Some (code - 87)
         else if 65 \<le> code \<and> code \<le> 70 then Some (code - 55)
         else None)"

definition is_digit :: "nat \<Rightarrow> char \<Rightarrow> bool" where
  "is_digit radix c = (case digit_of c of None \<Rightarrow> False | Some d \<Rightarrow> d < radix)"

definition digit_val :: "char \<Rightarrow> nat" where
  "digit_val c = (case digit_of c of None \<Rightarrow> 0 | Some d \<Rightarrow> d)"

definition digits_value :: "nat \<Rightarrow> string \<Rightarrow> nat" where
  "digits_value radix z = foldl (\<lambda>a c. a * radix + digit_val c) 0 z"

text \<open>White space that \<^verbatim>\<open>parseInt\<close> skips (the ASCII part of it).\<close>

definition is_space :: "char \<Rightarrow> bool" where
  "is_space c = (c = CHR '' '' \<or> c = CHR 0x09 \<or> c = CHR 0x0A \<or> c = CHR 0x0B
                 \<or> c = CHR 0x0C \<or> c = CHR 0x0D)"

text \<open>
  \<^verbatim>\<open>parseInt(string)\<close> with no radix: skip leading white space, read a sign, take
  radix 16 after \<^verbatim>\<open>0x\<close> or \<^verbatim>\<open>0X\<close> and radix 10 otherwise, and read the longest
  prefix of digits; no digit gives \<^verbatim>\<open>NaN\<close>. An argument that is a number already
  is printed and read back, which gives the same integer.
\<close>

definition parse_int_text :: "string \<Rightarrow> jsvalue" where
  "parse_int_text s =
     (let s1 = dropWhile is_space s;
          (sign, s2) = (case s1 of
                          [] \<Rightarrow> (1 :: int, s1)
                        | c # t \<Rightarrow> if c = CHR ''-'' then (- 1, t)
                                  else if c = CHR ''+'' then (1, t) else (1, s1));
          (radix, s3) = (case s2 of
                           c # x # t \<Rightarrow> if c = CHR ''0'' \<and> (x = CHR ''x'' \<or> x = CHR ''X'')
                                       then (16 :: nat, t) else (10, s2)
                         | _ \<Rightarrow> (10, s2));
          z = takeWhile (is_digit radix) s3
      in if z = [] then NaN else Num (sign * int (digits_value radix z)))"

fun parseInt :: "jsvalue \<Rightarrow> jsvalue" where
  "parseInt (Str s) = parse_int_text s"
| "parseInt (Num n) = Num n"
| "parseInt NaN = NaN"

section \<open>The SQL statements\<close>

text \<open>
  \<^verbatim>\<open>FROM reviews LEFT JOIN comments ON reviews.review_id = comments.review_id\<close>:
  every review paired with each of its comments, or once with no comment.
\<close>

definition join_rows :: "comment list \<Rightarrow> review \<Rightarrow> (review \<times> comment option) list" where
  "join_rows cs r =
     (case filter (\<lambda>c. c_review_id c = review_id r) cs of
        [] \<Rightarrow> [(r, None)]
      | m # ms \<Rightarrow> map (\<lambda>c. (r, Some c)) (m # ms))"

definition left_join :: "review list \<Rightarrow> comment list \<Rightarrow> (review \<times> comment option) list" where
  "left_join rs cs = concat (map (join_rows cs) rs)"

text \<open>\<^verbatim>\<open>GROUP BY reviews.review_id\<close>: the joined rows that share a review id form a group.\<close>

fun group_by_review_id :: "(review \<times> comment option) list \<Rightarrow> (review \<times> comment option) list list" where
  "group_by_review_id [] = []"
| "group_by_review_id (x # xs) =
     (x # filter (\<lambda>y. review_id (fst y) = review_id (fst x)) xs)
     # group_by_review_id (filter (\<lambda>y. review_id (fst y) \<noteq> review_id (fst x)) xs)"

text \<open>
  \<^verbatim>\<open>SELECT reviews.*, COUNT(comments.review_id) AS comment_count\<close>: one row for a
  group, with the columns of its review and the number of its rows that have a
  comment, delivered as decimal text.
\<close>

fun count_row :: "(review \<times> comment option) list \<Rightarrow> review_row list" where
  "count_row [] = []"
| "count_row (x # xs) =
     [review.extend (fst x)
        (review_row.fields (Str (show_nat (length (filter (\<lambda>y. snd y \<noteq> None) (x # xs))))))]"

text \<open>
  \<^verbatim>\<open>ORDER BY created_at DESC\<close>. Rows with equal timestamps keep the order they had
  (the store promises nothing for them).
\<close>

definition order_by_desc :: "('a \<Rightarrow> timestamp) \<Rightarrow> 'a list \<Rightarrow> 'a list" where
  "order_by_desc k xs = sort_key (\<lambda>x. - k x) xs"

definition sql_reviews_counted :: "database \<Rightarrow> review_row list" where
  "sql_reviews_counted db =
     order_by_desc created_at
       (concat (map count_row (group_by_review_id (left_join (reviews db) (comments db)))))"

text \<open>\<^verbatim>\<open>SELECT * FROM reviews WHERE review_id = $1\<close>\<close>

definition sql_review_by_id :: "storage \<Rightarrow> database \<Rightarrow> string \<Rightarrow> rejection + review list" where
  "sql_review_by_id st db p1 =
     (case integer_in st p1 of
        None \<Rightarrow> Inl Storage_error
      | Some n \<Rightarrow> Inr (filter (\<lambda>r. review_id r = n) (reviews db)))"

text \<open>\<^verbatim>\<open>SELECT * FROM comments WHERE review_id = $1 ORDER BY comments.created_at DESC\<close>\<close>

definition sql_comments_by_review :: "storage \<Rightarrow> database \<Rightarrow> string \<Rightarrow> rejection + comment list" where
  "sql_comments_by_review st db p1 =
     (case integer_in st p1 of
        None \<Rightarrow> Inl Storage_error
      | Some n \<Rightarrow> Inr (order_by_desc c_created_at (filter (\<lambda>c. c_review_id c = n) (comments db))))"

text \<open>
  \<^verbatim>\<open>UPDATE comments SET votes = votes + $1 WHERE review_id = $2 RETURNING *\<close>.
  The statement is refused as a whole when a parameter is not an integer or a new
  vote count does not fit the column; otherwise every row that matches is updated in
  its place and the updated rows are returned.
\<close>

definition sql_update_votes ::
  "storage \<Rightarrow> database \<Rightarrow> string \<Rightarrow> string \<Rightarrow> rejection + (comment list \<times> database)" where
  "sql_update_votes st db p1 p2 =
     (case integer_in st p1 of
        None \<Rightarrow> Inl Storage_error
      | Some d \<Rightarrow>
         (case integer_in st p2 of
            None \<Rightarrow> Inl Storage_error
          | Some k \<Rightarrow>
             if list_ex (\<lambda>c. c_review_id c = k \<and> \<not> integer_fits st (c_votes c + d)) (comments db)
             then Inl Storage_error
             else
               let bump = (\<lambda>c. if c_review_id c = k then c\<lparr>c_votes := c_votes c + d\<rparr> else c)
               in Inr (map bump (filter (\<lambda>c. c_review_id c = k) (comments db)),
                       db\<lparr>comments := map bump (comments db)\<rparr>)))"

section \<open>The query layer\<close>

text \<open>\<^verbatim>\<open>db.query\<close> sends a statement: the pool records it.\<close>

definition sent :: "stmt \<Rightarrow> conn \<Rightarrow> conn" where
  "sent s c = c\<lparr>issued := issued c @ [s]\<rparr>"

text \<open>
  An argument of the functions below is the text the driver sends for it, which is
  also the text a template literal embeds.
\<close>

definition selectReviews :: "conn \<Rightarrow> review_row list promise" where
  "selectReviews c =
     (let c1 = sent Select_reviews_counted c;
          reviewArr = sql_reviews_counted (store c1)
      in (Inr (map (\<lambda>review. review\<lparr>comment_count := parseInt (comment_count review)\<rparr>) reviewArr),
          c1))"

definition selectReviewFromId :: "storage \<Rightarrow> string \<Rightarrow> conn \<Rightarrow> review promise" where
  "selectReviewFromId st reviewId c =
     (let c1 = sent (Select_review reviewId) c
      in case sql_review_by_id st (store c1) reviewId of
           Inl e \<Rightarrow> (Inl e, c1)
         | Inr rows \<Rightarrow>
            (case rows of
               [] \<Rightarrow> (Inl (Rejected 404 (''No review found for review '' @ reviewId)), c1)
             | review # _ \<Rightarrow> (Inr review, c1)))"

definition selectCommentsFromReview :: "storage \<Rightarrow> string \<Rightarrow> conn \<Rightarrow> comment list promise" where
  "selectCommentsFromReview st reviewId c =
     (let c1 = sent (Select_review reviewId) c
      in case sql_review_by_id st (store c1) reviewId of
           Inl e \<Rightarrow> (Inl e, c1)
         | Inr rows \<Rightarrow>
            if length rows = 0
            then (Inl (Rejected 404 (''No review found for review '' @ reviewId)), c1)
            else
              (let c2 = sent (Select_comments reviewId) c1
               in case sql_comments_by_review st (store c2) reviewId of
                    Inl e \<Rightarrow> (Inl e, c2)
                  | Inr res \<Rightarrow> (Inr res, c2)))"

text \<open>
  \<^verbatim>\<open>patchComment(review_id, inc_votes)\<close> sends the parameter array
  \<^verbatim>\<open>[review_id, inc_votes]\<close>: \<^verbatim>\<open>$1\<close> is \<^verbatim>\<open>review_id\<close> and \<^verbatim>\<open>$2\<close> is
  \<^verbatim>\<open>inc_votes\<close>. The result is \<^verbatim>\<open>res.rows[0]\<close>, which is \<^verbatim>\<open>undefined\<close>
  (\<open>None\<close>) when no row came back.
\<close>

definition patchComment :: "storage \<Rightarrow> string \<Rightarrow> string \<Rightarrow> conn \<Rightarrow> comment option promise" where
  "patchComment st review_id_arg inc_votes c =
     (let c1 = sent (Update_votes review_id_arg inc_votes) c
      in case sql_update_votes st (store c1) review_id_arg inc_votes of
           Inl e \<Rightarrow> (Inl e, c1)
         | Inr (rows, db') \<Rightarrow>
            (Inr (case rows of [] \<Rightarrow> None | row # _ \<Rightarrow> Some row), c1\<lparr>store := db'\<rparr>))"

section \<open>Comment creation\<close>

text \<open>
  Modelled from the spec: the body of a comment-creation request, a JSON object, of
  which the handler (not among the modelled sources) reads the fields
  \<^verbatim>\<open>username\<close> and \<^verbatim>\<open>body\<close>.
\<close>

type_synonym payload = "(string \<times> jsvalue) list"

fun text_of :: "jsvalue \<Rightarrow> string" where
  "text_of (Str s) = s"
| "text_of (Num n) = show_int n"
| "text_of NaN = ''NaN''"

text \<open>
  Modelled from the spec: a required field of the body, which must be present and
  not empty (the handler's validation is not among the modelled sources).
\<close>

definition field_text :: "payload \<Rightarrow> string \<Rightarrow> string option" where
  "field_text p k =
     (case map_of p k of
        None \<Rightarrow> None
      | Some v \<Rightarrow> if text_of v = [] then None else Some (text_of v))"

text \<open>
  Modelled from the spec: the operation behind
  \<^verbatim>\<open>POST /api/reviews/:review_id/comments\<close> (the handler's validation of the body and
  \<^verbatim>\<open>insertComment\<close>) is not among the modelled sources; only its tests are. The
  spec says: the body must contain a non-empty \<^verbatim>\<open>username\<close> and \<^verbatim>\<open>body\<close>, checked
  before querying, or the operation fails with 400 and
  \<^verbatim>\<open>Bad request - incomplete information\<close>; other fields of the body are ignored; a
  malformed review id gives 400 \<^verbatim>\<open>Bad request\<close>; an unknown user or review gives 404
  \<^verbatim>\<open>Not found\<close>; otherwise the new comment is stored and returned with a generated
  \<^verbatim>\<open>comment_id\<close> and \<^verbatim>\<open>created_at\<close> (arguments here) and \<^verbatim>\<open>votes\<close> 0.
\<close>

definition insertComment ::
  "storage \<Rightarrow> int \<Rightarrow> timestamp \<Rightarrow> string \<Rightarrow> payload \<Rightarrow> conn \<Rightarrow> comment promise" where
  "insertComment st new_id now reviewId p c =
     (case field_text p ''username'' of
        None \<Rightarrow> (Inl (Rejected 400 ''Bad request - incomplete information''), c)
      | Some u \<Rightarrow>
         (case field_text p ''body'' of
            None \<Rightarrow> (Inl (Rejected 400 ''Bad request - incomplete information''), c)
          | Some b \<Rightarrow>
             (let c1 = sent (Insert_comment reviewId u b) c
              in case integer_in st reviewId of
                   None \<Rightarrow> (Inl (Rejected 400 ''Bad request''), c1)
                 | Some n \<Rightarrow>
                    if list_ex (\<lambda>r. review_id r = n) (reviews (store c1))
                       \<and> list_ex (\<lambda>w. username w = u) (users (store c1))
                    then
                      (let row = \<lparr>comment_id = new_id, author = u, c_review_id = n,
                                    body = b, c_votes = 0, c_created_at = now\<rparr>
                       in (Inr row,
                           c1\<lparr>store := (store c1)\<lparr>comments := comments (store c1) @ [row]\<rparr>\<rparr>))
                    else (Inl (Rejected 404 ''Not found''), c1))))"

section \<open>The listings of categories and users\<close>

text \<open>
  Modelled from the spec: \<^verbatim>\<open>listCategories()\<close> is not among the modelled sources.
  The spec says: it takes no parameters, returns the sequence of the categories (the
  order does not matter; the order of the table here) and has no failure mode, the
  empty sequence being a valid result.
\<close>

definition listCategories :: "conn \<Rightarrow> category_row list promise" where
  "listCategories c =
     (let c1 = sent Select_categories c
      in (Inr (categories (store c1)), c1))"

text \<open>
  Modelled from the spec: \<^verbatim>\<open>listUsers()\<close> is not among the modelled sources. The spec
  says: it takes no parameters, returns the sequence of the users (the order of the
  table here) and has no failure mode.
\<close>

definition listUsers :: "conn \<Rightarrow> user list promise" where
  "listUsers c =
     (let c1 = sent Select_users c
      in (Inr (users (store c1)), c1))"

section \<open>Notions the properties are stated with\<close>

text \<open>The number of comment rows whose review id is \<open>n\<close>.\<close>

definition comment_total :: "database \<Rightarrow> int \<Rightarrow> nat" where
  "comment_total db n = length (filter (\<lambda>c. c_review_id c = n) (comments db))"

text \<open>Timestamps that never increase along the sequence.\<close>

definition newest_first :: "timestamp list \<Rightarrow> bool" where
  "newest_first ts = sorted_wrt (\<lambda>a b. b \<le> a) ts"

text \<open>The row of the aggregate query for a review, with the count as the driver's text.\<close>

definition counted :: "comment list \<Rightarrow> review \<Rightarrow> review_row" where
  "counted cs r =
     review.extend r (review_row.fields
       (Str (show_nat (length (filter (\<lambda>c. c_review_id c = review_id r) cs)))))"

text \<open>A field of the request body that is absent or the empty string.\<close>

definition missing :: "payload \<Rightarrow> string \<Rightarrow> bool" where
  "missing p k = (map_of p k = None \<or> map_of p k = Some (Str []))"

section \<open>Sample data\<close>

text \<open>
  A storage layer that reads plain decimal digits as an integer and keeps 32-bit
  signed values, and a small store: two reviews, the newer one with two comments, a
  user and a category.
\<close>

definition sample_storage :: storage where
  "sample_storage =
     \<lparr>integer_in = (\<lambda>s. if s \<noteq> [] \<and> list_all (is_digit 10) s
                          then Some (int (digits_value 10 s)) else None),
      integer_fits = (\<lambda>i. - 2147483648 \<le> i \<and> i \<le> 2147483647)\<rparr>"

definition review_a :: review where
  "review_a = \<lparr>review_id = 1, title = ''Agricola'', category = ''euro game'',
                designer = ''Uwe Rosenberg'', owner = ''mallionaire'', review_body = ''Farmyard fun!'',
                review_img_url = ''a.png'', created_at = 10, votes = 1\<rparr>"

definition review_b :: review where
  "review_b = \<lparr>review_id = 2, title = ''Jenga'', category = ''dexterity'',
                designer = ''Leslie Scott'', owner = ''philippaclaire9'', review_body = ''Fiddly fun'',
                review_img_url = ''b.png'', created_at = 20, votes = 5\<rparr>"

definition comment_a :: comment where
  "comment_a = \<lparr>comment_id = 1, author = ''mallionaire'', c_review_id = 2,
                 body = ''I loved this game too!'', c_votes = 16, c_created_at = 5\<rparr>"

definition comment_b :: comment where
  "comment_b = \<lparr>comment_id = 2, author = ''mallionaire'', c_review_id = 2,
                 body = ''My dog loved this game too!'', c_votes = 13, c_created_at = 7\<rparr>"

definition sample_users :: "user list" where
  "sample_users = [\<lparr>username = ''mallionaire'', name = ''haz'', avatar_url = ''m.png''\<rparr>]"

definition sample_categories :: "category_row list" where
  "sample_categories = [\<lparr>slug = ''dexterity'', description = ''Games of skill''\<rparr>]"

definition sample_db :: database where
  "sample_db = \<lparr>reviews = [review_a, review_b], comments = [comment_a, comment_b],
                 users = sample_users, categories = sample_categories\<rparr>"

definition sample_conn :: conn where
  "sample_conn = \<lparr>store = sample_db, issued = []\<rparr>"

lemmas sample_defs =
  sample_conn_def sample_db_def sample_users_def comment_a_def comment_b_def
  review_a_def review_b_def sample_storage_def

section \<open>Decimal text read back\<close>

text \<open>The text of a count is read back by \<^verbatim>\<open>parseInt\<close> as the count.\<close>

lemma digit_of_digit_char: "d < 10 \<Longrightarrow> digit_of (digit_char d) = Some d"
  by (simp add: digit_of_def digit_char_def)

lemma is_digit_digit_char: "d < 10 \<Longrightarrow> is_digit 10 (digit_char d)"
  by (simp add: is_digit_def digit_of_digit_char)

lemma digit_val_digit_char: "d < 10 \<Longrightarrow> digit_val (digit_char d) = d"
  by (simp add: digit_val_def digit_of_digit_char)

lemma show_nat_not_Nil: "show_nat n \<noteq> []"
  by (subst show_nat.simps) simp

lemma show_nat_digits: "list_all (is_digit 10) (show_nat n)"
proof (induction n rule: show_nat.induct)
  case (1 n)
  show ?case
  proof (cases "n < 10")
    case True
    then show ?thesis
      by (subst show_nat.simps) (simp add: is_digit_digit_char)
  next
    case False
    with 1 show ?thesis
      by (subst show_nat.simps) (simp add: is_digit_digit_char)
  qed
qed

lemma digits_value_snoc: "digits_value r (z @ [c]) = digits_value r z * r + digit_val c"
  by (simp add: digits_value_def)

lemma digits_value_show_nat: "digits_value 10 (show_nat n) = n"
proof (induction n rule: show_nat.induct)
  case (1 n)
  show ?case
  proof (cases "n < 10")
    case True
    then show ?thesis
      by (subst show_nat.simps) (simp add: digits_value_def digit_val_digit_char)
  next
    case False
    with 1 have "digits_value 10 (show_nat (n div 10)) = n div 10"
      by simp
    with False show ?thesis
      by (subst show_nat.simps) (simp add: digits_value_snoc digit_val_digit_char)
  qed
qed

lemma decimal_digit_plain:
  assumes "is_digit 10 c"
  shows "\<not> is_space c" and "c \<noteq> CHR ''-''" and "c \<noteq> CHR ''+''"
    and "c \<noteq> CHR ''x''" and "c \<noteq> CHR ''X''"
  using assms by (auto simp: is_digit_def digit_of_def is_space_def split: if_splits)

lemma takeWhile_all: "list_all P xs \<Longrightarrow> takeWhile P xs = xs"
  by (induction xs) auto

lemma parse_int_text_decimal:
  assumes "s \<noteq> []" and "list_all (is_digit 10) s"
  shows "parse_int_text s = Num (int (digits_value 10 s))"
proof -
  from assms obtain c t where s: "s = c # t" and c: "is_digit 10 c" and t: "list_all (is_digit 10) t"
    by (cases s) auto
  have s1: "dropWhile is_space s = s"
    using c by (simp add: s decimal_digit_plain)
  have sign: "(case s of
                 [] \<Rightarrow> (1 :: int, s)
               | c # t \<Rightarrow> if c = CHR ''-'' then (- 1, t)
                         else if c = CHR ''+'' then (1, t) else (1, s)) = (1, s)"
    using c by (simp add: s decimal_digit_plain)
  have radix10: "(case s of
            c # x # t \<Rightarrow> if c = CHR ''0'' \<and> (x = CHR ''x'' \<or> x = CHR ''X'')
                        then (16 :: nat, t) else (10, s)
          | _ \<Rightarrow> (10, s)) = (10, s)"
    using t by (cases t) (auto simp: s decimal_digit_plain)
  have tw: "takeWhile (is_digit 10) s = s"
    using assms(2) by (rule takeWhile_all)
  show ?thesis
    unfolding parse_int_text_def Let_def s1 sign prod.case radix10 tw
    using assms(1) by simp
qed

lemma parse_int_text_show_nat: "parse_int_text (show_nat n) = Num (int n)"
  by (simp add: parse_int_text_decimal show_nat_not_Nil show_nat_digits digits_value_show_nat)

subsection \<open>Join and grouping\<close>

lemma join_rows_not_Nil: "join_rows cs r \<noteq> []"
  by (simp add: join_rows_def split: list.splits)

lemma join_rows_fst: "y \<in> set (join_rows cs r) \<Longrightarrow> fst y = r"
  by (auto simp: join_rows_def split: list.splits)

lemma join_rows_count:
  "length (filter (\<lambda>y. snd y \<noteq> None) (join_rows cs r))
     = length (filter (\<lambda>c. c_review_id c = review_id r) cs)"
proof (cases "filter (\<lambda>c. c_review_id c = review_id r) cs")
  case Nil
  then show ?thesis by (simp add: join_rows_def)
next
  case (Cons m ms)
  have "filter (\<lambda>y. snd y \<noteq> None) (map (\<lambda>c. (r, Some c)) (m # ms)) = map (\<lambda>c. (r, Some c)) (m # ms)"
    by (rule filter_True) auto
  then show ?thesis by (simp add: join_rows_def Cons)
qed

lemma left_join_fst: "y \<in> set (left_join rs cs) \<Longrightarrow> fst y \<in> set rs"
  by (auto simp: left_join_def dest: join_rows_fst)

lemma group_block:
  assumes "b \<noteq> []" and "\<forall>y\<in>set b. fst y = r"
    and "\<forall>y\<in>set rest. review_id (fst y) \<noteq> review_id r"
  shows "group_by_review_id (b @ rest) = b # group_by_review_id rest"
proof -
  from assms(1) obtain x xs where b: "b = x # xs" by (cases b) auto
  have x: "fst x = r" using assms(2) by (simp add: b)
  have same: "filter (\<lambda>y. review_id (fst y) = review_id (fst x)) (xs @ rest) = xs"
    using assms(2,3) by (auto simp: b x filter_empty_conv intro: filter_True)
  have diff: "filter (\<lambda>y. review_id (fst y) \<noteq> review_id (fst x)) (xs @ rest) = rest"
    using assms(2,3) by (auto simp: b x filter_empty_conv intro: filter_True)
  show ?thesis by (simp only: b append_Cons group_by_review_id.simps same diff)
qed

lemma count_row_block: "count_row (join_rows cs r) = [counted cs r]"
proof -
  obtain x xs where b: "join_rows cs r = x # xs"
    using join_rows_not_Nil [of cs r] by (cases "join_rows cs r") auto
  have "fst x = r" using join_rows_fst [of x cs r] by (simp add: b)
  moreover have "length (filter (\<lambda>y. snd y \<noteq> None) (x # xs))
      = length (filter (\<lambda>c. c_review_id c = review_id r) cs)"
    using join_rows_count [of cs r] by (simp only: b)
  ultimately show ?thesis
    by (simp only: b count_row.simps counted_def)
qed

lemma grouped_rows:
  "distinct (map review_id rs) \<Longrightarrow>
   concat (map count_row (group_by_review_id (left_join rs cs))) = map (counted cs) rs"
proof (induction rs)
  case Nil
  then show ?case by (simp add: left_join_def)
next
  case (Cons r rs)
  have split: "left_join (r # rs) cs = join_rows cs r @ left_join rs cs"
    by (simp add: left_join_def)
  have other: "\<forall>y\<in>set (left_join rs cs). review_id (fst y) \<noteq> review_id r"
  proof
    fix y assume "y \<in> set (left_join rs cs)"
    then have "review_id (fst y) \<in> set (map review_id rs)"
      by (auto dest: left_join_fst)
    with Cons.prems show "review_id (fst y) \<noteq> review_id r"
      by auto
  qed
  have "group_by_review_id (left_join (r # rs) cs)
          = join_rows cs r # group_by_review_id (left_join rs cs)"
    unfolding split
    by (rule group_block [OF join_rows_not_Nil _ other]) (simp add: join_rows_fst)
  with Cons show ?case
    by (simp add: count_row_block)
qed

lemma group_rows_from:
  "row \<in> set (concat (map count_row (group_by_review_id xs))) \<Longrightarrow>
   review.truncate row \<in> fst ` set xs"
proof (induction xs rule: group_by_review_id.induct)
  case 1
  then show ?case by simp
next
  case (2 x xs)
  from "2.prems" consider
      (head) "row \<in> set (count_row (x # filter (\<lambda>y. review_id (fst y) = review_id (fst x)) xs))"
    | (tail) "row \<in> set (concat (map count_row
         (group_by_review_id (filter (\<lambda>y. review_id (fst y) \<noteq> review_id (fst x)) xs))))"
    by auto
  then show ?case
  proof cases
    case head
    then show ?thesis
      by (simp add: review.defs review_row.defs)
  next
    case tail
    with "2.IH" show ?thesis by auto
  qed
qed

subsection \<open>Ordering\<close>

lemma order_by_desc_sorted: "newest_first (map k (order_by_desc k xs))"
proof -
  have "sorted (map (\<lambda>x. - k x) (sort_key (\<lambda>x. - k x) xs))"
    by (rule sorted_sort_key)
  then show ?thesis
    by (simp add: newest_first_def order_by_desc_def sorted_map sorted_wrt_map)
qed

lemma insort_key_map:
  "insort_key k (g x) (map g ys) = map g (insort_key (\<lambda>y. k (g y)) x ys)"
  by (induction ys) auto

lemma sort_key_map: "sort_key k (map g xs) = map g (sort_key (\<lambda>y. k (g y)) xs)"
  by (induction xs) (auto simp: insort_key_map)

lemma order_by_desc_map:
  "order_by_desc k (map g xs) = map g (order_by_desc (\<lambda>y. k (g y)) xs)"
  by (simp add: order_by_desc_def sort_key_map)

lemma order_by_desc_set: "set (order_by_desc k xs) = set xs"
  by (simp add: order_by_desc_def)

lemma order_by_desc_length: "length (order_by_desc k xs) = length xs"
  by (simp add: order_by_desc_def)

lemma order_by_desc_Nil: "order_by_desc k [] = []"
  by (simp add: order_by_desc_def)

lemma counted_fields:
  "review.truncate (counted cs r) = r"
  "created_at (counted cs r) = created_at r"
  "review_id (counted cs r) = review_id r"
  "comment_count (counted cs r) = Str (show_nat (length (filter (\<lambda>c. c_review_id c = review_id r) cs)))"
  by (simp_all add: counted_def review.defs review_row.defs)

subsection \<open>The query layer, step by step\<close>

lemma store_sent [simp]: "store (sent s c) = store c"
  by (simp add: sent_def)

lemma issued_sent [simp]: "issued (sent s c) = issued c @ [s]"
  by (simp add: sent_def)

lemma sql_reviews_counted_rows:
  assumes "distinct (map review_id (reviews db))"
  shows "sql_reviews_counted db
           = map (counted (comments db)) (order_by_desc created_at (reviews db))"
  using assms
  by (simp add: sql_reviews_counted_def grouped_rows order_by_desc_map counted_fields)

lemma sql_reviews_counted_stored:
  "row \<in> set (sql_reviews_counted db) \<Longrightarrow> review.truncate row \<in> set (reviews db)"
proof -
  assume "row \<in> set (sql_reviews_counted db)"
  then have "row \<in> set (concat (map count_row
      (group_by_review_id (left_join (reviews db) (comments db)))))"
    by (simp only: sql_reviews_counted_def order_by_desc_set)
  then have "review.truncate row \<in> fst ` set (left_join (reviews db) (comments db))"
    by (rule group_rows_from)
  then show ?thesis
    by (auto dest: left_join_fst)
qed

lemma selectReviews_fst:
  "fst (selectReviews c)
     = Inr (map (\<lambda>review. review\<lparr>comment_count := parseInt (comment_count review)\<rparr>)
              (sql_reviews_counted (store c)))"
  by (simp add: selectReviews_def Let_def)

lemma selectReviews_snd: "snd (selectReviews c) = sent Select_reviews_counted c"
  by (simp add: selectReviews_def Let_def)

lemma parsed_fields:
  "review.truncate (row\<lparr>comment_count := v\<rparr>) = review.truncate row"
  "created_at (row\<lparr>comment_count := v\<rparr>) = created_at row"
  "review_id (row\<lparr>comment_count := v\<rparr>) = review_id row"
  by (simp_all add: review.defs)

lemma truncate_review_id: "review_id (review.truncate row) = review_id row"
  by (simp add: review.defs)

lemma parsed_counted:
  "comment_count ((counted cs r)\<lparr>comment_count := parseInt (comment_count (counted cs r))\<rparr>)
     = Num (int (length (filter (\<lambda>c. c_review_id c = review_id r) cs)))"
  by (simp add: counted_fields parse_int_text_show_nat)

lemma filter_key_single:
  "distinct (map f xs) \<Longrightarrow> x \<in> set xs \<Longrightarrow> filter (\<lambda>y. f y = f x) xs = [x]"
proof (induction xs)
  case Nil
  then show ?case by simp
next
  case (Cons a xs)
  show ?case
  proof (cases "a = x")
    case True
    from Cons.prems(1) True have "f x \<notin> f ` set xs" by simp
    then have "filter (\<lambda>y. f y = f x) xs = []"
      by (auto simp: filter_empty_conv image_iff)
    with True show ?thesis by simp
  next
    case False
    with Cons.prems have x: "x \<in> set xs" by simp
    from Cons.prems(1) have "f a \<notin> f ` set xs" by simp
    with x have "f a \<noteq> f x" by (auto simp: image_iff)
    with x Cons show ?thesis by simp
  qed
qed

lemma filter_Nil_iff_image: "filter (\<lambda>r. f r = n) xs = [] \<longleftrightarrow> n \<notin> f ` set xs"
  by (auto simp: filter_empty_conv image_iff)

lemma selectReviewFromId_refused:
  "integer_in st reviewId = None \<Longrightarrow>
   selectReviewFromId st reviewId c = (Inl Storage_error, sent (Select_review reviewId) c)"
  by (simp add: selectReviewFromId_def sql_review_by_id_def Let_def)

lemma selectReviewFromId_absent:
  assumes "integer_in st reviewId = Some n" and "n \<notin> review_id ` set (reviews (store c))"
  shows "selectReviewFromId st reviewId c
     = (Inl (Rejected 404 (''No review found for review '' @ reviewId)),
        sent (Select_review reviewId) c)"
proof -
  have "filter (\<lambda>r. review_id r = n) (reviews (store c)) = []"
    using assms(2) by (simp add: filter_Nil_iff_image)
  with assms(1) show ?thesis
    by (simp add: selectReviewFromId_def sql_review_by_id_def Let_def)
qed

lemma selectReviewFromId_present:
  assumes n: "integer_in st reviewId = Some n"
    and "n \<in> review_id ` set (reviews (store c))"
  shows "\<exists>r rest. filter (\<lambda>r. review_id r = n) (reviews (store c)) = r # rest
     \<and> selectReviewFromId st reviewId c = (Inr r, sent (Select_review reviewId) c)"
proof -
  have "filter (\<lambda>r. review_id r = n) (reviews (store c)) \<noteq> []"
    using assms(2) by (simp add: filter_Nil_iff_image)
  then obtain r rest where "filter (\<lambda>r. review_id r = n) (reviews (store c)) = r # rest"
    by (cases "filter (\<lambda>r. review_id r = n) (reviews (store c))") auto
  with n show ?thesis
    by (simp add: selectReviewFromId_def sql_review_by_id_def Let_def)
qed

lemma selectCommentsFromReview_refused:
  "integer_in st reviewId = None \<Longrightarrow>
   selectCommentsFromReview st reviewId c = (Inl Storage_error, sent (Select_review reviewId) c)"
  by (simp add: selectCommentsFromReview_def sql_review_by_id_def Let_def)

lemma selectCommentsFromReview_absent:
  assumes "integer_in st reviewId = Some n" and "n \<notin> review_id ` set (reviews (store c))"
  shows "selectCommentsFromReview st reviewId c
     = (Inl (Rejected 404 (''No review found for review '' @ reviewId)),
        sent (Select_review reviewId) c)"
proof -
  have "filter (\<lambda>r. review_id r = n) (reviews (store c)) = []"
    using assms(2) by (simp add: filter_Nil_iff_image)
  with assms(1) show ?thesis
    by (simp add: selectCommentsFromReview_def sql_review_by_id_def Let_def)
qed

lemma selectCommentsFromReview_present:
  assumes "integer_in st reviewId = Some n" and "n \<in> review_id ` set (reviews (store c))"
  shows "selectCommentsFromReview st reviewId c
     = (Inr (order_by_desc c_created_at (filter (\<lambda>k. c_review_id k = n) (comments (store c)))),
        sent (Select_comments reviewId) (sent (Select_review reviewId) c))"
proof -
  have "filter (\<lambda>r. review_id r = n) (reviews (store c)) \<noteq> []"
    using assms(2) by (simp add: filter_Nil_iff_image)
  with assms(1) show ?thesis
    by (simp add: selectCommentsFromReview_def sql_review_by_id_def
        sql_comments_by_review_def Let_def)
qed

lemma selectReviewFromId_store: "store (snd (selectReviewFromId st reviewId c)) = store c"
  by (simp add: selectReviewFromId_def Let_def split: sum.splits list.splits)

lemma selectCommentsFromReview_store:
  "store (snd (selectCommentsFromReview st reviewId c)) = store c"
  by (simp add: selectCommentsFromReview_def Let_def split: sum.splits)

lemma selectReviews_store_only:
  "store c' = store c \<Longrightarrow> fst (selectReviews c') = fst (selectReviews c)"
  by (simp add: selectReviews_fst)

lemma selectReviewFromId_store_only:
  "store c' = store c \<Longrightarrow>
   fst (selectReviewFromId st reviewId c') = fst (selectReviewFromId st reviewId c)"
  by (simp add: selectReviewFromId_def Let_def split: sum.splits list.splits)

lemma selectCommentsFromReview_store_only:
  "store c' = store c \<Longrightarrow>
   fst (selectCommentsFromReview st reviewId c') = fst (selectCommentsFromReview st reviewId c)"
  by (simp add: selectCommentsFromReview_def Let_def split: sum.splits)

lemma patchComment_cases:
  "patchComment st review_id_arg inc_votes c =
     (case sql_update_votes st (store c) review_id_arg inc_votes of
        Inl e \<Rightarrow> (Inl e, sent (Update_votes review_id_arg inc_votes) c)
      | Inr (rows, db') \<Rightarrow>
         (Inr (case rows of [] \<Rightarrow> None | row # _ \<Rightarrow> Some row),
          (sent (Update_votes review_id_arg inc_votes) c)\<lparr>store := db'\<rparr>))"
  by (simp add: patchComment_def Let_def)

lemma sql_update_votes_error:
  "sql_update_votes st db p1 p2 = Inl e \<Longrightarrow> e = Storage_error"
  by (auto simp: sql_update_votes_def Let_def split: option.splits if_splits)

lemma sql_update_votes_rows:
  assumes "integer_in st p1 = Some d" and "integer_in st p2 = Some k"
    and "\<forall>z\<in>set (filter (\<lambda>z. c_review_id z = k) (comments db)). integer_fits st (c_votes z + d)"
  shows "sql_update_votes st db p1 p2 =
     Inr (map (\<lambda>z. z\<lparr>c_votes := c_votes z + d\<rparr>) (filter (\<lambda>z. c_review_id z = k) (comments db)),
          db\<lparr>comments := map (\<lambda>z. if c_review_id z = k then z\<lparr>c_votes := c_votes z + d\<rparr> else z)
                              (comments db)\<rparr>)"
proof -
  have fits: "\<not> list_ex (\<lambda>z. c_review_id z = k \<and> \<not> integer_fits st (c_votes z + d)) (comments db)"
    using assms(3) by (auto simp: list_ex_iff)
  have "map (\<lambda>z. if c_review_id z = k then z\<lparr>c_votes := c_votes z + d\<rparr> else z)
          (filter (\<lambda>z. c_review_id z = k) (comments db))
        = map (\<lambda>z. z\<lparr>c_votes := c_votes z + d\<rparr>) (filter (\<lambda>z. c_review_id z = k) (comments db))"
    by (rule map_cong) auto
  with assms(1,2) fits show ?thesis
    by (simp add: sql_update_votes_def Let_def)
qed

lemma patchComment_rows:
  assumes "integer_in st review_id_arg = Some d" and "integer_in st inc_votes = Some k"
    and "\<forall>z\<in>set (filter (\<lambda>z. c_review_id z = k) (comments (store c))).
           integer_fits st (c_votes z + d)"
  shows "patchComment st review_id_arg inc_votes c =
     (Inr (case filter (\<lambda>z. c_review_id z = k) (comments (store c)) of
             [] \<Rightarrow> None
           | row # _ \<Rightarrow> Some (row\<lparr>c_votes := c_votes row + d\<rparr>)),
      (sent (Update_votes review_id_arg inc_votes) c)
        \<lparr>store := (store c)\<lparr>comments :=
            map (\<lambda>z. if c_review_id z = k then z\<lparr>c_votes := c_votes z + d\<rparr> else z)
              (comments (store c))\<rparr>\<rparr>)"
  by (simp add: patchComment_cases sql_update_votes_rows [OF assms] split: list.splits)

lemma sample_integers:
  "integer_in sample_storage ''1'' = Some 1"
  "integer_in sample_storage ''2'' = Some 2"
  "integer_in sample_storage ''3'' = Some 3"
  "integer_in sample_storage ''5'' = Some 5"
  "integer_in sample_storage ''7'' = Some 7"
  "integer_in sample_storage ''100'' = Some 100"
  "integer_in sample_storage ''notAnId'' = None"
  by (simp_all add: sample_storage_def is_digit_def digit_of_def digits_value_def digit_val_def)

lemma missing_field_text: "missing p k \<Longrightarrow> field_text p k = None"
  by (auto simp: missing_def field_text_def)

lemma field_text_cong:
  "map_of p' k = map_of p k \<Longrightarrow> field_text p' k = field_text p k"
  by (simp add: field_text_def)

section \<open>Properties of the query layer\<close>

text \<open>
  C2. With \<^verbatim>\<open>review_id\<close> the primary key of the reviews table, \<^verbatim>\<open>selectReviews\<close>
  returns every review exactly once (the returned reviews are the stored ones, newest
  first, with nothing said about the order of equal timestamps), each with a
  \<^verbatim>\<open>comment_count\<close> that is the number, as an integer, of comment rows whose
  \<^verbatim>\<open>review_id\<close> is the review's; a review with no comment is in the result with
  \<^verbatim>\<open>comment_count\<close> 0.
\<close>

theorem selectReviews_comment_count:
  assumes "distinct (map review_id (reviews (store c)))"
  shows "\<exists>rows. fst (selectReviews c) = Inr rows
           \<and> mset (map review.truncate rows) = mset (reviews (store c))
           \<and> newest_first (map created_at rows)
           \<and> (\<forall>row\<in>set rows.
                 comment_count row = Num (int (comment_total (store c) (review_id row))))
           \<and> (\<forall>r\<in>set (reviews (store c)). \<exists>row\<in>set rows. review.truncate row = r
                 \<and> comment_count row = Num (int (comment_total (store c) (review_id r))))
           \<and> (\<forall>r\<in>set (reviews (store c)). comment_total (store c) (review_id r) = 0 \<longrightarrow>
                 (\<exists>row\<in>set rows. review.truncate row = r \<and> comment_count row = Num 0))"
proof -
  let ?cs = "comments (store c)"
  let ?parse = "\<lambda>review :: review_row. review\<lparr>comment_count := parseInt (comment_count review)\<rparr>"
  let ?sorted = "order_by_desc created_at (reviews (store c))"
  let ?rows = "map (\<lambda>r. ?parse (counted ?cs r)) ?sorted"
  have rows: "fst (selectReviews c) = Inr ?rows"
    using assms by (simp add: selectReviews_fst sql_reviews_counted_rows comp_def)
  have trunc: "map review.truncate ?rows = ?sorted"
    by (simp add: comp_def parsed_fields counted_fields)
  have "mset ?sorted = mset (reviews (store c))"
    by (simp add: order_by_desc_def)
  then have all: "mset (map review.truncate ?rows) = mset (reviews (store c))"
    by (simp only: trunc)
  have stamps: "map created_at ?rows = map created_at ?sorted"
    by (simp add: comp_def parsed_fields counted_fields)
  have newest: "newest_first (map created_at ?rows)"
    unfolding stamps by (rule order_by_desc_sorted)
  have count: "comment_count (?parse (counted ?cs r))
                 = Num (int (comment_total (store c) (review_id r)))" for r
    by (simp only: parsed_counted comment_total_def)
  have each: "\<forall>row\<in>set ?rows.
      comment_count row = Num (int (comment_total (store c) (review_id row)))"
    using count by (auto simp: parsed_fields counted_fields)
  have every: "\<forall>r\<in>set (reviews (store c)). \<exists>row\<in>set ?rows. review.truncate row = r
      \<and> comment_count row = Num (int (comment_total (store c) (review_id r)))"
  proof
    fix r assume "r \<in> set (reviews (store c))"
    then have "?parse (counted ?cs r) \<in> set ?rows"
      by (simp add: order_by_desc_set)
    moreover have "review.truncate (?parse (counted ?cs r)) = r"
      by (simp add: parsed_fields counted_fields)
    ultimately show "\<exists>row\<in>set ?rows. review.truncate row = r
      \<and> comment_count row = Num (int (comment_total (store c) (review_id r)))"
      using count by blast
  qed
  have zero: "\<forall>r\<in>set (reviews (store c)). comment_total (store c) (review_id r) = 0 \<longrightarrow>
      (\<exists>row\<in>set ?rows. review.truncate row = r \<and> comment_count row = Num 0)"
    using every by fastforce
  show ?thesis
  proof (rule exI [of _ ?rows], intro conjI)
    show "fst (selectReviews c) = Inr ?rows" by (rule rows)
    show "mset (map review.truncate ?rows) = mset (reviews (store c))" by (rule all)
    show "newest_first (map created_at ?rows)" by (rule newest)
    show "\<forall>row\<in>set ?rows.
      comment_count row = Num (int (comment_total (store c) (review_id row)))" by (rule each)
    show "\<forall>r\<in>set (reviews (store c)). \<exists>row\<in>set ?rows. review.truncate row = r
      \<and> comment_count row = Num (int (comment_total (store c) (review_id r)))" by (rule every)
    show "\<forall>r\<in>set (reviews (store c)). comment_total (store c) (review_id r) = 0 \<longrightarrow>
      (\<exists>row\<in>set ?rows. review.truncate row = r \<and> comment_count row = Num 0)" by (rule zero)
  qed
qed

theorem selectReviews_comment_count_witness:
  "distinct (map review_id (reviews (store sample_conn)))
   \<and> (\<exists>rows. fst (selectReviews sample_conn) = Inr rows
         \<and> mset (map review.truncate rows) = {#review_a, review_b#}
         \<and> (\<exists>row\<in>set rows. review.truncate row = review_b \<and> comment_count row = Num 2)
         \<and> (\<exists>row\<in>set rows. review.truncate row = review_a \<and> comment_count row = Num 0))"
proof -
  have pk: "distinct (map review_id (reviews (store sample_conn)))"
    by (simp add: sample_defs)
  have stored: "reviews (store sample_conn) = [review_a, review_b]"
    by (simp add: sample_conn_def sample_db_def)
  have totals: "comment_total (store sample_conn) (review_id review_b) = 2"
      "comment_total (store sample_conn) (review_id review_a) = 0"
    by (simp_all add: sample_defs comment_total_def)
  from selectReviews_comment_count [OF pk] obtain rows where
    r: "fst (selectReviews sample_conn) = Inr rows"
    and m: "mset (map review.truncate rows) = mset (reviews (store sample_conn))"
    and e: "\<forall>r\<in>set (reviews (store sample_conn)). \<exists>row\<in>set rows. review.truncate row = r
              \<and> comment_count row = Num (int (comment_total (store sample_conn) (review_id r)))"
    by (elim exE conjE) (rule that)
  have m': "mset (map review.truncate rows) = {#review_a, review_b#}"
    using m by (simp add: stored)
  have "review_b \<in> set (reviews (store sample_conn))"
    by (simp add: stored)
  with e have "\<exists>row\<in>set rows. review.truncate row = review_b
      \<and> comment_count row = Num (int (comment_total (store sample_conn) (review_id review_b)))"
    by (rule bspec)
  then have b: "\<exists>row\<in>set rows. review.truncate row = review_b \<and> comment_count row = Num 2"
    by (simp add: totals)
  have "review_a \<in> set (reviews (store sample_conn))"
    by (simp add: stored)
  with e have "\<exists>row\<in>set rows. review.truncate row = review_a
      \<and> comment_count row = Num (int (comment_total (store sample_conn) (review_id review_a)))"
    by (rule bspec)
  then have a: "\<exists>row\<in>set rows. review.truncate row = review_a \<and> comment_count row = Num 0"
    by (simp add: totals)
  show ?thesis
  proof (intro conjI exI)
    show "distinct (map review_id (reviews (store sample_conn)))" by (rule pk)
    show "fst (selectReviews sample_conn) = Inr rows" by (rule r)
    show "mset (map review.truncate rows) = {#review_a, review_b#}" by (rule m')
    show "\<exists>row\<in>set rows. review.truncate row = review_b \<and> comment_count row = Num 2" by (rule b)
    show "\<exists>row\<in>set rows. review.truncate row = review_a \<and> comment_count row = Num 0" by (rule a)
  qed
qed

text \<open>
  C3. For every store, the rows that \<^verbatim>\<open>selectReviews\<close> returns, and the rows that
  \<^verbatim>\<open>selectCommentsFromReview\<close> returns (it does return rows for every existing
  review), are sorted by \<^verbatim>\<open>created_at\<close> descending: the timestamps never increase
  along the whole sequence.
\<close>

theorem results_newest_first:
  "(\<exists>rows. fst (selectReviews c) = Inr rows \<and> newest_first (map created_at rows))
   \<and> (\<forall>rows. fst (selectCommentsFromReview st reviewId c) = Inr rows
        \<longrightarrow> newest_first (map c_created_at rows))
   \<and> (\<forall>r. r \<in> set (reviews (store c)) \<and> integer_in st reviewId = Some (review_id r)
        \<longrightarrow> (\<exists>rows. fst (selectCommentsFromReview st reviewId c) = Inr rows
               \<and> newest_first (map c_created_at rows)))"
proof -
  let ?parse = "\<lambda>review :: review_row. review\<lparr>comment_count := parseInt (comment_count review)\<rparr>"
  have same: "map created_at (map ?parse rows) = map created_at rows" for rows
    by (simp add: comp_def)
  have "newest_first (map created_at (sql_reviews_counted (store c)))"
    unfolding sql_reviews_counted_def by (rule order_by_desc_sorted)
  then have "newest_first (map created_at (map ?parse (sql_reviews_counted (store c))))"
    by (simp only: same)
  then have reviews: "\<exists>rows. fst (selectReviews c) = Inr rows \<and> newest_first (map created_at rows)"
    by (simp only: selectReviews_fst) blast
  have comments: "newest_first (map c_created_at rows)"
    if "fst (selectCommentsFromReview st reviewId c) = Inr rows" for rows
  proof (cases "integer_in st reviewId")
    case None
    with that show ?thesis by (simp add: selectCommentsFromReview_refused)
  next
    case (Some n)
    show ?thesis
    proof (cases "n \<in> review_id ` set (reviews (store c))")
      case False
      with that Some show ?thesis by (simp add: selectCommentsFromReview_absent)
    next
      case True
      with that Some show ?thesis
        by (auto simp: selectCommentsFromReview_present order_by_desc_sorted)
    qed
  qed
  have existing: "\<exists>rows. fst (selectCommentsFromReview st reviewId c) = Inr rows
               \<and> newest_first (map c_created_at rows)"
    if "r \<in> set (reviews (store c))" "integer_in st reviewId = Some (review_id r)" for r
  proof -
    from that(1) have "review_id r \<in> review_id ` set (reviews (store c))" by simp
    from selectCommentsFromReview_present [OF that(2) this] show ?thesis
      by (simp add: order_by_desc_sorted)
  qed
  from reviews comments existing show ?thesis by blast
qed

theorem results_newest_first_witness:
  "(\<exists>rows. fst (selectReviews sample_conn) = Inr rows \<and> newest_first (map created_at rows))
   \<and> (\<exists>rows. fst (selectCommentsFromReview sample_storage ''2'' sample_conn) = Inr rows
         \<and> newest_first (map c_created_at rows))"
proof -
  have two: "integer_in sample_storage ''2'' = Some 2"
    by (simp add: sample_defs is_digit_def digit_of_def digits_value_def digit_val_def)
  have "review_b \<in> set (reviews (store sample_conn))
      \<and> integer_in sample_storage ''2'' = Some (review_id review_b)"
    using two by (simp add: sample_defs)
  with results_newest_first [of sample_conn sample_storage "''2''"] show ?thesis
    by blast
qed

text \<open>
  C4. For every \<^verbatim>\<open>reviewId\<close>, \<^verbatim>\<open>selectCommentsFromReview\<close> is rejected with status
  404 and the message \<^verbatim>\<open>No review found for review <id>\<close> exactly when no review row
  matches (the storage layer reads \<^verbatim>\<open>reviewId\<close> as an integer and no review row has
  it). When the review exists it returns its comments, and the empty sequence when it
  has none. The review is looked up first: a rejection with a status leaves the lookup
  of the review as the only statement issued, and a result comes after the lookup of
  the review followed by the query of the comments.
\<close>

theorem selectCommentsFromReview_404_or_rows:
  "(fst (selectCommentsFromReview st reviewId c)
      = Inl (Rejected 404 (''No review found for review '' @ reviewId))
    \<longleftrightarrow> (\<exists>n. integer_in st reviewId = Some n \<and> n \<notin> review_id ` set (reviews (store c))))
   \<and> (\<forall>n. integer_in st reviewId = Some n \<and> n \<in> review_id ` set (reviews (store c))
            \<and> comment_total (store c) n = 0
        \<longrightarrow> fst (selectCommentsFromReview st reviewId c) = Inr [])
   \<and> (\<forall>n. integer_in st reviewId = Some n \<and> n \<in> review_id ` set (reviews (store c))
        \<longrightarrow> (\<exists>rows. fst (selectCommentsFromReview st reviewId c) = Inr rows
               \<and> set rows = {k \<in> set (comments (store c)). c_review_id k = n}
               \<and> length rows = comment_total (store c) n))
   \<and> (\<forall>s m. fst (selectCommentsFromReview st reviewId c) = Inl (Rejected s m)
        \<longrightarrow> issued (snd (selectCommentsFromReview st reviewId c))
              = issued c @ [Select_review reviewId])
   \<and> (\<forall>rows. fst (selectCommentsFromReview st reviewId c) = Inr rows
        \<longrightarrow> issued (snd (selectCommentsFromReview st reviewId c))
              = issued c @ [Select_review reviewId, Select_comments reviewId])"
proof (cases "integer_in st reviewId")
  case None
  then show ?thesis
    by (simp add: selectCommentsFromReview_refused)
next
  case (Some n)
  show ?thesis
  proof (cases "n \<in> review_id ` set (reviews (store c))")
    case False
    note res = selectCommentsFromReview_absent [OF Some False]
    show ?thesis
      unfolding res using Some False by simp
  next
    case True
    note res = selectCommentsFromReview_present [OF Some True]
    have empty: "comment_total (store c) n = 0 \<Longrightarrow>
        filter (\<lambda>k. c_review_id k = n) (comments (store c)) = []"
      by (simp add: comment_total_def)
    show ?thesis
      unfolding res using Some True empty
      by (simp add: order_by_desc_Nil order_by_desc_set order_by_desc_length comment_total_def)
  qed
qed

theorem selectCommentsFromReview_404_or_rows_witness:
  "fst (selectCommentsFromReview sample_storage ''100'' sample_conn)
     = Inl (Rejected 404 ''No review found for review 100'')
   \<and> issued (snd (selectCommentsFromReview sample_storage ''100'' sample_conn))
       = [Select_review ''100'']
   \<and> fst (selectCommentsFromReview sample_storage ''1'' sample_conn) = Inr []
   \<and> issued (snd (selectCommentsFromReview sample_storage ''1'' sample_conn))
       = [Select_review ''1'', Select_comments ''1'']"
proof -
  have one: "integer_in sample_storage ''1'' = Some 1"
    by (simp add: sample_defs is_digit_def digit_of_def digits_value_def digit_val_def)
  have hundred: "integer_in sample_storage ''100'' = Some 100"
    by (simp add: sample_defs is_digit_def digit_of_def digits_value_def digit_val_def)
  have absent: "\<exists>n. integer_in sample_storage ''100'' = Some n
      \<and> n \<notin> review_id ` set (reviews (store sample_conn))"
    using hundred by (simp add: sample_defs)
  have present: "integer_in sample_storage ''1'' = Some 1
      \<and> 1 \<in> review_id ` set (reviews (store sample_conn))
      \<and> comment_total (store sample_conn) 1 = 0"
    using one by (simp add: sample_defs comment_total_def)
  note missing = selectCommentsFromReview_404_or_rows [of sample_storage "''100''" sample_conn]
  note bare = selectCommentsFromReview_404_or_rows [of sample_storage "''1''" sample_conn]
  have a: "fst (selectCommentsFromReview sample_storage ''100'' sample_conn)
     = Inl (Rejected 404 (''No review found for review '' @ ''100''))"
    using missing absent by blast
  with missing have b: "issued (snd (selectCommentsFromReview sample_storage ''100'' sample_conn))
       = issued sample_conn @ [Select_review ''100'']"
    by blast
  have c: "fst (selectCommentsFromReview sample_storage ''1'' sample_conn) = Inr []"
    using bare present by blast
  with bare have d: "issued (snd (selectCommentsFromReview sample_storage ''1'' sample_conn))
       = issued sample_conn @ [Select_review ''1'', Select_comments ''1'']"
    by blast
  from a b c d show ?thesis
    by (simp add: sample_conn_def)
qed

text \<open>
  C5. For every \<^verbatim>\<open>reviewId\<close>, \<^verbatim>\<open>selectReviewFromId\<close> returns the review row with
  that \<^verbatim>\<open>review_id\<close> when one exists (the single one, \<^verbatim>\<open>review_id\<close> being the primary
  key), and what it returns is always a stored row with that id. It is rejected with
  status 404 and the message \<^verbatim>\<open>No review found for review <id>\<close>, the id embedded as
  it was passed, exactly when no row matches: the storage layer reads \<^verbatim>\<open>reviewId\<close> as
  an integer and no review row has it. It builds no other rejection of its own (a
  \<^verbatim>\<open>reviewId\<close> that the storage layer refuses leaves the storage layer's error).
\<close>

theorem selectReviewFromId_found_or_404:
  "(\<forall>r. r \<in> set (reviews (store c)) \<and> integer_in st reviewId = Some (review_id r)
       \<longrightarrow> (\<exists>r'. fst (selectReviewFromId st reviewId c) = Inr r'
              \<and> review_id r' = review_id r))
   \<and> (\<forall>r. r \<in> set (reviews (store c)) \<and> integer_in st reviewId = Some (review_id r)
         \<and> distinct (map review_id (reviews (store c)))
       \<longrightarrow> fst (selectReviewFromId st reviewId c) = Inr r)
   \<and> (\<forall>r. fst (selectReviewFromId st reviewId c) = Inr r
       \<longrightarrow> r \<in> set (reviews (store c)) \<and> integer_in st reviewId = Some (review_id r))
   \<and> (fst (selectReviewFromId st reviewId c)
         = Inl (Rejected 404 (''No review found for review '' @ reviewId))
       \<longleftrightarrow> (\<exists>n. integer_in st reviewId = Some n \<and> n \<notin> review_id ` set (reviews (store c))))
   \<and> (\<forall>s m. fst (selectReviewFromId st reviewId c) = Inl (Rejected s m)
       \<longrightarrow> s = 404 \<and> m = ''No review found for review '' @ reviewId)"
proof (cases "integer_in st reviewId")
  case None
  then show ?thesis
    by (simp add: selectReviewFromId_refused)
next
  case (Some n)
  show ?thesis
  proof (cases "n \<in> review_id ` set (reviews (store c))")
    case False
    have res: "fst (selectReviewFromId st reviewId c)
        = Inl (Rejected 404 (''No review found for review '' @ reviewId))"
      by (simp add: selectReviewFromId_absent [OF Some False])
    have no: "\<not> (r \<in> set (reviews (store c)) \<and> integer_in st reviewId = Some (review_id r))" for r
      using Some False by auto
    then have no': "\<not> (r \<in> set (reviews (store c)) \<and> integer_in st reviewId = Some (review_id r)
         \<and> distinct (map review_id (reviews (store c))))" for r
      by blast
    have absent: "\<exists>n. integer_in st reviewId = Some n \<and> n \<notin> review_id ` set (reviews (store c))"
      using Some False by blast
    show ?thesis
      unfolding res by (simp only: no no' absent simp_thms) simp
  next
    case True
    from selectReviewFromId_present [OF Some True] obtain r rest where
      f: "filter (\<lambda>r. review_id r = n) (reviews (store c)) = r # rest"
      and "selectReviewFromId st reviewId c = (Inr r, sent (Select_review reviewId) c)"
      by blast
    then have res: "fst (selectReviewFromId st reviewId c) = Inr r"
      by simp
    have "r \<in> set (filter (\<lambda>r. review_id r = n) (reviews (store c)))"
      by (simp add: f)
    then have r: "r \<in> set (reviews (store c))" "review_id r = n"
      by simp_all
    have single: "r' = r" if "r' \<in> set (reviews (store c))" "review_id r' = n"
      "distinct (map review_id (reviews (store c)))" for r'
    proof -
      have "filter (\<lambda>y. review_id y = review_id r') (reviews (store c)) = [r']"
        using that(3) that(1) by (rule filter_key_single)
      with f that(2) show ?thesis by simp
    qed
    have e: "\<forall>r'. r' \<in> set (reviews (store c)) \<and> integer_in st reviewId = Some (review_id r')
       \<longrightarrow> (\<exists>r''. fst (selectReviewFromId st reviewId c) = Inr r''
              \<and> review_id r'' = review_id r')"
      using r(2) Some res by auto
    have a: "\<forall>r'. r' \<in> set (reviews (store c)) \<and> integer_in st reviewId = Some (review_id r')
         \<and> distinct (map review_id (reviews (store c)))
       \<longrightarrow> fst (selectReviewFromId st reviewId c) = Inr r'"
      using single Some res by auto
    have b: "\<forall>r'. fst (selectReviewFromId st reviewId c) = Inr r'
       \<longrightarrow> r' \<in> set (reviews (store c)) \<and> integer_in st reviewId = Some (review_id r')"
      using r Some res by auto
    have c: "fst (selectReviewFromId st reviewId c)
         = Inl (Rejected 404 (''No review found for review '' @ reviewId))
       \<longleftrightarrow> (\<exists>n. integer_in st reviewId = Some n \<and> n \<notin> review_id ` set (reviews (store c)))"
      using Some True res by simp
    have d: "\<forall>s m. fst (selectReviewFromId st reviewId c) = Inl (Rejected s m)
       \<longrightarrow> s = 404 \<and> m = ''No review found for review '' @ reviewId"
      using res by simp
    from e a b c d show ?thesis by (intro conjI)
  qed
qed

theorem selectReviewFromId_found_or_404_witness:
  "fst (selectReviewFromId sample_storage ''2'' sample_conn) = Inr review_b
   \<and> fst (selectReviewFromId sample_storage ''100'' sample_conn)
       = Inl (Rejected 404 ''No review found for review 100'')"
proof -
  have two: "integer_in sample_storage ''2'' = Some 2"
    by (simp add: sample_defs is_digit_def digit_of_def digits_value_def digit_val_def)
  have hundred: "integer_in sample_storage ''100'' = Some 100"
    by (simp add: sample_defs is_digit_def digit_of_def digits_value_def digit_val_def)
  have b: "review_b \<in> set (reviews (store sample_conn))
      \<and> integer_in sample_storage ''2'' = Some (review_id review_b)
      \<and> distinct (map review_id (reviews (store sample_conn)))"
    using two by (simp add: sample_defs)
  have absent: "\<exists>n. integer_in sample_storage ''100'' = Some n
      \<and> n \<notin> review_id ` set (reviews (store sample_conn))"
    using hundred by (simp add: sample_defs)
  from selectReviewFromId_found_or_404 [of sample_conn sample_storage "''2''"] b
  have "fst (selectReviewFromId sample_storage ''2'' sample_conn) = Inr review_b"
    by blast
  moreover
  from selectReviewFromId_found_or_404 [of sample_conn sample_storage "''100''"] absent
  have "fst (selectReviewFromId sample_storage ''100'' sample_conn)
       = Inl (Rejected 404 (''No review found for review '' @ ''100''))"
    by blast
  ultimately show ?thesis by simp
qed

text \<open>
  C8. The read operations leave the store as it was, and the same read repeated on the
  unchanged store gives the identical outcome: \<^verbatim>\<open>selectReviews\<close>,
  \<^verbatim>\<open>selectReviewFromId\<close> and \<^verbatim>\<open>selectCommentsFromReview\<close>, and the listings of
  categories and of users.
\<close>

theorem reads_leave_store:
  "store (snd (selectReviews c)) = store c
   \<and> store (snd (selectReviewFromId st reviewId c)) = store c
   \<and> store (snd (selectCommentsFromReview st reviewId c)) = store c
   \<and> fst (selectReviews (snd (selectReviews c))) = fst (selectReviews c)
   \<and> fst (selectReviewFromId st reviewId (snd (selectReviewFromId st reviewId c)))
       = fst (selectReviewFromId st reviewId c)
   \<and> fst (selectCommentsFromReview st reviewId (snd (selectCommentsFromReview st reviewId c)))
       = fst (selectCommentsFromReview st reviewId c)
   \<and> store (snd (listCategories c)) = store c
   \<and> store (snd (listUsers c)) = store c
   \<and> fst (listCategories (snd (listCategories c))) = fst (listCategories c)
   \<and> fst (listUsers (snd (listUsers c))) = fst (listUsers c)"
proof -
  have a: "store (snd (selectReviews c)) = store c"
    by (simp add: selectReviews_snd)
  note b = selectReviewFromId_store [of st reviewId c]
  note d = selectCommentsFromReview_store [of st reviewId c]
  have e: "fst (selectReviews (snd (selectReviews c))) = fst (selectReviews c)"
    using a by (rule selectReviews_store_only)
  have f: "fst (selectReviewFromId st reviewId (snd (selectReviewFromId st reviewId c)))
       = fst (selectReviewFromId st reviewId c)"
    using b by (rule selectReviewFromId_store_only)
  have g: "fst (selectCommentsFromReview st reviewId (snd (selectCommentsFromReview st reviewId c)))
       = fst (selectCommentsFromReview st reviewId c)"
    using d by (rule selectCommentsFromReview_store_only)
  have h: "store (snd (listCategories c)) = store c"
    by (simp add: listCategories_def Let_def)
  have i: "store (snd (listUsers c)) = store c"
    by (simp add: listUsers_def Let_def)
  have j: "fst (listCategories (snd (listCategories c))) = fst (listCategories c)"
    by (simp add: listCategories_def Let_def)
  have k: "fst (listUsers (snd (listUsers c))) = fst (listUsers c)"
    by (simp add: listUsers_def Let_def)
  from a b d e f g h i j k show ?thesis
    by (intro conjI)
qed

theorem reads_leave_store_witness:
  "store (snd (selectCommentsFromReview sample_storage ''2'' sample_conn)) = sample_db
   \<and> fst (selectCommentsFromReview sample_storage ''2''
            (snd (selectCommentsFromReview sample_storage ''2'' sample_conn)))
       = fst (selectCommentsFromReview sample_storage ''2'' sample_conn)
   \<and> store (snd (listCategories sample_conn)) = sample_db
   \<and> store (snd (listUsers sample_conn)) = sample_db
   \<and> fst (listCategories (snd (listCategories sample_conn))) = fst (listCategories sample_conn)
   \<and> fst (listUsers (snd (listUsers sample_conn))) = fst (listUsers sample_conn)"
  using reads_leave_store [of sample_conn sample_storage "''2''"]
  by (simp add: sample_conn_def)

text \<open>
  C9. \<^verbatim>\<open>patchComment\<close> has no not-found outcome: for every pair of arguments it is
  never rejected with a status and a message, and when the \<^verbatim>\<open>UPDATE\<close> matches no
  comment row (no comment has the \<^verbatim>\<open>review_id\<close> bound to \<^verbatim>\<open>$2\<close>) the promise
  resolves with \<^verbatim>\<open>undefined\<close> and the store is left as it was.
\<close>

theorem patchComment_no_row:
  "(\<forall>s m. fst (patchComment st review_id_arg inc_votes c) \<noteq> Inl (Rejected s m))
   \<and> (\<forall>d k. integer_in st review_id_arg = Some d \<and> integer_in st inc_votes = Some k
         \<and> filter (\<lambda>z. c_review_id z = k) (comments (store c)) = []
       \<longrightarrow> patchComment st review_id_arg inc_votes c
             = (Inr None, sent (Update_votes review_id_arg inc_votes) c))"
proof -
  have never: "fst (patchComment st review_id_arg inc_votes c) \<noteq> Inl (Rejected s m)" for s m
  proof (cases "sql_update_votes st (store c) review_id_arg inc_votes")
    case (Inl e)
    then have "e = Storage_error" by (rule sql_update_votes_error)
    with Inl show ?thesis by (simp add: patchComment_cases)
  next
    case (Inr r)
    then show ?thesis by (simp add: patchComment_cases split: prod.splits)
  qed
  have none: "patchComment st review_id_arg inc_votes c
             = (Inr None, sent (Update_votes review_id_arg inc_votes) c)"
    if d: "integer_in st review_id_arg = Some d" and k: "integer_in st inc_votes = Some k"
      and no: "filter (\<lambda>z. c_review_id z = k) (comments (store c)) = []" for d k
  proof -
    have fits: "\<forall>z\<in>set (filter (\<lambda>z. c_review_id z = k) (comments (store c))).
           integer_fits st (c_votes z + d)"
      by (simp only: no) simp
    have "\<forall>z\<in>set (comments (store c)). c_review_id z \<noteq> k"
      using no by (simp add: filter_empty_conv)
    then have same: "map (\<lambda>z. if c_review_id z = k then z\<lparr>c_votes := c_votes z + d\<rparr> else z)
              (comments (store c)) = comments (store c)"
      by (simp add: map_idI)
    show ?thesis
      by (simp add: patchComment_rows [OF d k fits] no same sent_def)
  qed
  from never none show ?thesis by blast
qed

theorem patchComment_no_row_witness:
  "patchComment sample_storage ''1'' ''7'' sample_conn
     = (Inr None, sent (Update_votes ''1'' ''7'') sample_conn)"
proof -
  have "integer_in sample_storage ''1'' = Some 1 \<and> integer_in sample_storage ''7'' = Some 7
      \<and> filter (\<lambda>z. c_review_id z = 7) (comments (store sample_conn)) = []"
    by (simp add: sample_defs is_digit_def digit_of_def digits_value_def digit_val_def)
  with patchComment_no_row [of sample_storage "''1''" "''7''" sample_conn] show ?thesis
    by blast
qed

text \<open>
  C10. Every row of \<^verbatim>\<open>selectReviews\<close> has the columns of a stored review exactly as
  the query delivered them; only \<^verbatim>\<open>comment_count\<close> is replaced, by its
  \<^verbatim>\<open>parseInt\<close>. When the \<^verbatim>\<open>UPDATE\<close> of \<^verbatim>\<open>patchComment\<close> changes several comment
  rows, the first returned row alone is the result, while every matching row is
  changed in the store.
\<close>

theorem rows_as_stored_first_row_reported:
  "(\<exists>rows. fst (selectReviews c) = Inr rows
       \<and> length rows = length (sql_reviews_counted (store c))
       \<and> (\<forall>i<length rows.
             review.truncate (rows ! i) = review.truncate (sql_reviews_counted (store c) ! i)
           \<and> review.truncate (rows ! i) \<in> set (reviews (store c))
           \<and> comment_count (rows ! i) = parseInt (comment_count (sql_reviews_counted (store c) ! i))))
   \<and> (\<forall>d k x y ys. integer_in st review_id_arg = Some d \<and> integer_in st inc_votes = Some k
         \<and> filter (\<lambda>z. c_review_id z = k) (comments (store c)) = x # y # ys
         \<and> (\<forall>z\<in>set (x # y # ys). integer_fits st (c_votes z + d))
       \<longrightarrow> fst (patchComment st review_id_arg inc_votes c) = Inr (Some (x\<lparr>c_votes := c_votes x + d\<rparr>))
         \<and> comments (store (snd (patchComment st review_id_arg inc_votes c)))
             = map (\<lambda>z. if c_review_id z = k then z\<lparr>c_votes := c_votes z + d\<rparr> else z)
                 (comments (store c)))"
proof -
  let ?raw = "sql_reviews_counted (store c)"
  let ?parse = "\<lambda>review :: review_row. review\<lparr>comment_count := parseInt (comment_count review)\<rparr>"
  have res: "fst (selectReviews c) = Inr (map ?parse ?raw)"
    by (rule selectReviews_fst)
  have row: "review.truncate (map ?parse ?raw ! i) = review.truncate (?raw ! i)
           \<and> review.truncate (map ?parse ?raw ! i) \<in> set (reviews (store c))
           \<and> comment_count (map ?parse ?raw ! i) = parseInt (comment_count (?raw ! i))"
    if "i < length (map ?parse ?raw)" for i
  proof -
    from that have i: "i < length ?raw" by simp
    then have "?raw ! i \<in> set ?raw" by (rule nth_mem)
    then have "review.truncate (?raw ! i) \<in> set (reviews (store c))"
      by (rule sql_reviews_counted_stored)
    with i show ?thesis by (simp add: parsed_fields)
  qed
  have reads: "\<exists>rows. fst (selectReviews c) = Inr rows
       \<and> length rows = length ?raw
       \<and> (\<forall>i<length rows.
             review.truncate (rows ! i) = review.truncate (?raw ! i)
           \<and> review.truncate (rows ! i) \<in> set (reviews (store c))
           \<and> comment_count (rows ! i) = parseInt (comment_count (?raw ! i)))"
  proof (rule exI [of _ "map ?parse ?raw"], intro conjI)
    show "fst (selectReviews c) = Inr (map ?parse ?raw)" by (rule res)
    show "length (map ?parse ?raw) = length ?raw" by simp
    show "\<forall>i<length (map ?parse ?raw).
             review.truncate (map ?parse ?raw ! i) = review.truncate (?raw ! i)
           \<and> review.truncate (map ?parse ?raw ! i) \<in> set (reviews (store c))
           \<and> comment_count (map ?parse ?raw ! i) = parseInt (comment_count (?raw ! i))"
      using row by blast
  qed
  have patch: "fst (patchComment st review_id_arg inc_votes c) = Inr (Some (x\<lparr>c_votes := c_votes x + d\<rparr>))
         \<and> comments (store (snd (patchComment st review_id_arg inc_votes c)))
             = map (\<lambda>z. if c_review_id z = k then z\<lparr>c_votes := c_votes z + d\<rparr> else z)
                 (comments (store c))"
    if d: "integer_in st review_id_arg = Some d" and k: "integer_in st inc_votes = Some k"
      and rows: "filter (\<lambda>z. c_review_id z = k) (comments (store c)) = x # y # ys"
      and fits: "\<forall>z\<in>set (x # y # ys). integer_fits st (c_votes z + d)" for d k x y ys
  proof -
    have "\<forall>z\<in>set (filter (\<lambda>z. c_review_id z = k) (comments (store c))).
           integer_fits st (c_votes z + d)"
      using fits by (simp only: rows)
    from patchComment_rows [OF d k this] show ?thesis
      by (simp add: rows)
  qed
  from reads patch show ?thesis by blast
qed

theorem rows_as_stored_first_row_reported_witness:
  "(\<exists>rows. fst (selectReviews sample_conn) = Inr rows \<and> length rows = 2
       \<and> review.truncate (rows ! 0) = review_b \<and> review.truncate (rows ! 1) = review_a)
   \<and> fst (patchComment sample_storage ''3'' ''2'' sample_conn)
       = Inr (Some (comment_a\<lparr>c_votes := 19\<rparr>))
   \<and> comments (store (snd (patchComment sample_storage ''3'' ''2'' sample_conn)))
       = [comment_a\<lparr>c_votes := 19\<rparr>, comment_b\<lparr>c_votes := 16\<rparr>]"
proof -
  note inst = rows_as_stored_first_row_reported [of sample_conn sample_storage "''3''" "''2''"]
  have pk: "distinct (map review_id (reviews (store sample_conn)))"
    by (simp add: sample_defs)
  have sorted: "order_by_desc created_at (reviews (store sample_conn)) = [review_b, review_a]"
    by (simp add: sample_defs order_by_desc_def)
  have raw: "sql_reviews_counted (store sample_conn)
      = [counted (comments (store sample_conn)) review_b,
         counted (comments (store sample_conn)) review_a]"
    by (simp add: sql_reviews_counted_rows [OF pk] sorted)
  from inst obtain rows where r: "fst (selectReviews sample_conn) = Inr rows"
    and l: "length rows = length (sql_reviews_counted (store sample_conn))"
    and t: "\<forall>i<length rows.
             review.truncate (rows ! i) = review.truncate (sql_reviews_counted (store sample_conn) ! i)"
    by blast
  have l2: "length rows = 2" using l by (simp add: raw)
  have t0: "review.truncate (rows ! 0) = review_b"
    using t l2 by (simp add: raw counted_fields)
  have t1: "review.truncate (rows ! 1) = review_a"
    using t l2 by (simp add: raw counted_fields)
  have hyp: "integer_in sample_storage ''3'' = Some 3 \<and> integer_in sample_storage ''2'' = Some 2
         \<and> filter (\<lambda>z. c_review_id z = 2) (comments (store sample_conn)) = comment_a # comment_b # []
         \<and> (\<forall>z\<in>set (comment_a # comment_b # []). integer_fits sample_storage (c_votes z + 3))"
    by (simp add: sample_integers) (simp add: sample_defs)
  from inst hyp have
    p: "fst (patchComment sample_storage ''3'' ''2'' sample_conn)
         = Inr (Some (comment_a\<lparr>c_votes := c_votes comment_a + 3\<rparr>))
       \<and> comments (store (snd (patchComment sample_storage ''3'' ''2'' sample_conn)))
           = map (\<lambda>z. if c_review_id z = 2 then z\<lparr>c_votes := c_votes z + 3\<rparr> else z)
               (comments (store sample_conn))"
    by blast
  have q: "fst (patchComment sample_storage ''3'' ''2'' sample_conn)
       = Inr (Some (comment_a\<lparr>c_votes := 19\<rparr>))
     \<and> comments (store (snd (patchComment sample_storage ''3'' ''2'' sample_conn)))
       = [comment_a\<lparr>c_votes := 19\<rparr>, comment_b\<lparr>c_votes := 16\<rparr>]"
    using p by (simp add: sample_defs)
  from r l2 t0 t1 q show ?thesis by blast
qed

text \<open>
  C1. \<^verbatim>\<open>patchComment(review_id, inc_votes)\<close> is meant to add \<^verbatim>\<open>inc_votes\<close> to the
  votes of the comments of the review \<^verbatim>\<open>review_id\<close> and to return the updated row.
  The parameter array is \<^verbatim>\<open>[review_id, inc_votes]\<close> while the statement adds
  \<^verbatim>\<open>$1\<close> and compares \<^verbatim>\<open>review_id\<close> with \<^verbatim>\<open>$2\<close>, so the two are swapped: on
  the sample store, where review 2 has two comments, \<^verbatim>\<open>patchComment(2, 5)\<close> changes
  nothing and resolves with \<^verbatim>\<open>undefined\<close>, and it is \<^verbatim>\<open>patchComment(5, 2)\<close> that
  adds 5 to the votes of the comments of review 2.
\<close>

theorem patchComment_parameters_swapped:
  "fst (patchComment sample_storage ''2'' ''5'' sample_conn) = Inr None
   \<and> comments (store (snd (patchComment sample_storage ''2'' ''5'' sample_conn)))
       = [comment_a, comment_b]
   \<and> fst (patchComment sample_storage ''5'' ''2'' sample_conn)
       = Inr (Some (comment_a\<lparr>c_votes := 21\<rparr>))
   \<and> comments (store (snd (patchComment sample_storage ''5'' ''2'' sample_conn)))
       = [comment_a\<lparr>c_votes := 21\<rparr>, comment_b\<lparr>c_votes := 18\<rparr>]"
proof -
  have none: "\<forall>z\<in>set (filter (\<lambda>z. c_review_id z = 5) (comments (store sample_conn))).
           integer_fits sample_storage (c_votes z + 2)"
    by (simp add: sample_defs)
  have both: "\<forall>z\<in>set (filter (\<lambda>z. c_review_id z = 2) (comments (store sample_conn))).
           integer_fits sample_storage (c_votes z + 5)"
    by (simp add: sample_defs)
  note a = patchComment_rows [OF sample_integers(2) sample_integers(4) none]
  note b = patchComment_rows [OF sample_integers(4) sample_integers(2) both]
  show ?thesis
    unfolding a b by (simp add: sample_defs)
qed

section \<open>Properties of comment creation\<close>

text \<open>
  C6. A comment-creation request whose \<^verbatim>\<open>username\<close> or \<^verbatim>\<open>body\<close> is absent or empty
  fails with status 400 and the message \<^verbatim>\<open>Bad request - incomplete information\<close>,
  and the connection is as before: no statement was issued and nothing was written.
\<close>

theorem insertComment_incomplete:
  "missing p ''username'' \<or> missing p ''body'' \<Longrightarrow>
   insertComment st new_id now reviewId p c
     = (Inl (Rejected 400 ''Bad request - incomplete information''), c)"
  by (auto simp: insertComment_def dest!: missing_field_text split: option.splits)

theorem insertComment_incomplete_witness:
  "missing [(''username'', Str ''mallionaire'')] ''body''
   \<and> insertComment sample_storage 7 30 ''2'' [(''username'', Str ''mallionaire'')] sample_conn
       = (Inl (Rejected 400 ''Bad request - incomplete information''), sample_conn)"
proof -
  have m: "missing [(''username'', Str ''mallionaire'')] ''body''"
    by (simp add: missing_def)
  then have "missing [(''username'', Str ''mallionaire'')] ''username''
      \<or> missing [(''username'', Str ''mallionaire'')] ''body''"
    by (rule disjI2)
  from m insertComment_incomplete [OF this] show ?thesis
    by (rule conjI)
qed

text \<open>
  C7. A comment that was created has \<^verbatim>\<open>votes\<close> 0 and is the row appended to the
  comments table, whatever the request body held besides \<^verbatim>\<open>username\<close> and
  \<^verbatim>\<open>body\<close>: a body that agrees on these two fields creates the same comment.
\<close>

theorem insertComment_votes_zero:
  "insertComment st new_id now reviewId p c = (Inr row, c') \<Longrightarrow>
   c_votes row = 0
   \<and> comments (store c') = comments (store c) @ [row]
   \<and> (\<forall>p'. map_of p' ''username'' = map_of p ''username''
            \<and> map_of p' ''body'' = map_of p ''body''
        \<longrightarrow> insertComment st new_id now reviewId p' c = (Inr row, c'))"
proof -
  assume ok: "insertComment st new_id now reviewId p c = (Inr row, c')"
  have same: "insertComment st new_id now reviewId p' c = insertComment st new_id now reviewId p c"
    if "map_of p' ''username'' = map_of p ''username''" "map_of p' ''body'' = map_of p ''body''"
    for p'
    unfolding insertComment_def field_text_cong [OF that(1)] field_text_cong [OF that(2)]
    by (rule refl)
  obtain u where u: "field_text p ''username'' = Some u"
    using ok by (cases "field_text p ''username''") (simp_all add: insertComment_def)
  obtain b where b: "field_text p ''body'' = Some b"
    using ok by (cases "field_text p ''body''") (simp_all add: insertComment_def u)
  obtain n where n: "integer_in st reviewId = Some n"
    using ok by (cases "integer_in st reviewId") (simp_all add: insertComment_def u b Let_def)
  let ?new = "\<lparr>comment_id = new_id, author = u, c_review_id = n,
                body = b, c_votes = 0, c_created_at = now\<rparr>"
  have known: "list_ex (\<lambda>r. review_id r = n) (reviews (store c))
      \<and> list_ex (\<lambda>w. username w = u) (users (store c))"
    using ok by (simp add: insertComment_def u b n Let_def split: if_splits)
  let ?after = "(sent (Insert_comment reviewId u b) c)
           \<lparr>store := (store c)\<lparr>comments := comments (store c) @ [?new]\<rparr>\<rparr>"
  from known have eq: "insertComment st new_id now reviewId p c = (Inr ?new, ?after)"
    by (simp add: insertComment_def u b n Let_def)
  from ok have "fst (insertComment st new_id now reviewId p c) = Inr row"
    and "snd (insertComment st new_id now reviewId p c) = c'"
    by simp_all
  then have row: "row = ?new" and after: "c' = ?after"
    unfolding eq by simp_all
  have "c_votes row = 0 \<and> comments (store c') = comments (store c) @ [row]"
    unfolding row after by simp
  with same ok show ?thesis by simp
qed

theorem insertComment_votes_zero_witness:
  "(\<exists>row c'. insertComment sample_storage 7 30 ''2''
        [(''username'', Str ''mallionaire''), (''body'', Str ''Great game!''), (''votes'', Num 50)]
        sample_conn = (Inr row, c')
      \<and> c_votes row = 0
      \<and> comments (store c') = [comment_a, comment_b, row]
      \<and> insertComment sample_storage 7 30 ''2''
           [(''username'', Str ''mallionaire''), (''body'', Str ''Great game!'')] sample_conn
         = (Inr row, c'))"
proof -
  let ?p = "[(''username'', Str ''mallionaire''), (''body'', Str ''Great game!''), (''votes'', Num 50)]"
  let ?q = "[(''username'', Str ''mallionaire''), (''body'', Str ''Great game!'')]"
  define row where "row = \<lparr>comment_id = 7, author = ''mallionaire'', c_review_id = 2,
               body = ''Great game!'', c_votes = 0, c_created_at = 30\<rparr>"
  define c' where "c' = \<lparr>store = sample_db\<lparr>comments := [comment_a, comment_b, row]\<rparr>,
               issued = [Insert_comment ''2'' ''mallionaire'' ''Great game!'']\<rparr>"
  have fields: "field_text ?p ''username'' = Some ''mallionaire''"
      "field_text ?p ''body'' = Some ''Great game!''"
    by (simp_all add: field_text_def)
  have known: "list_ex (\<lambda>r. review_id r = 2) (reviews sample_db)"
      "list_ex (\<lambda>w. username w = ''mallionaire'') (users sample_db)"
    by (simp_all add: sample_db_def sample_users_def review_a_def review_b_def)
  have ok: "insertComment sample_storage 7 30 ''2'' ?p sample_conn = (Inr row, c')"
    unfolding insertComment_def fields
    by (simp add: sample_integers Let_def known sent_def sample_conn_def row_def c'_def)
       (simp add: sample_db_def)
  note inst = insertComment_votes_zero [OF ok]
  have q: "map_of ?q ''username'' = map_of ?p ''username'' \<and> map_of ?q ''body'' = map_of ?p ''body''"
    by simp
  have same: "insertComment sample_storage 7 30 ''2'' ?q sample_conn = (Inr row, c')"
    by (rule inst [THEN conjunct2, THEN conjunct2, THEN spec, THEN mp, OF q])
  have zero: "c_votes row = 0"
    by (rule inst [THEN conjunct1])
  have "comments (store c') = comments (store sample_conn) @ [row]"
    by (rule inst [THEN conjunct2, THEN conjunct1])
  then have stored: "comments (store c') = [comment_a, comment_b, row]"
    by (simp add: sample_conn_def sample_db_def)
  show ?thesis
  proof (intro exI conjI)
    show "insertComment sample_storage 7 30 ''2'' ?p sample_conn = (Inr row, c')" by (rule ok)
    show "c_votes row = 0" by (rule zero)
    show "comments (store c') = [comment_a, comment_b, row]" by (rule stored)
    show "insertComment sample_storage 7 30 ''2'' ?q sample_conn = (Inr row, c')" by (rule same)
  qed
qed

end
